theory Spec2Isabelle
  imports Main
begin

section \<open>JavaScript values\<close>

text \<open>
  A number, as far as the code can tell numbers apart: \<open>NaN\<close>, or a number other than
  \<open>NaN\<close> given by the text that \<open>Number.prototype.toString\<close> returns for it (\<open>0\<close> for
  both zeros, \<open>1\<close>, \<open>-120\<close>, \<open>0.5\<close>, \<open>1e+21\<close>, \<open>Infinity\<close>). Reading that text back
  gives the number, so two numbers other than \<open>NaN\<close> are identical under \<open>===\<close> exactly when
  their texts are equal; \<open>NaN\<close> is identical to nothing. The code does no arithmetic.
\<close>

datatype number = NaN | Numeric string

text \<open>
  The values that occur as tag names, as the \<open>type\<close> property, as attribute values and as
  properties of \<open>Object.prototype\<close>. A function carries its reference identity and its
  source text; a plain object (one that inherits \<open>toString\<close>) carries its identity.
\<close>

datatype jsval =
    Undefined
  | Null
  | Bool bool
  | Num number
  | Str string
  | Fun nat string
  | Obj nat

text \<open>
  An object literal used as attribute map: its own properties in the order in which
  \<open>Object.keys\<close> lists them. The map inherits from \<open>Object.prototype\<close>.
\<close>

type_synonym attrs = "(string \<times> jsval) list"

text \<open>
  What the code finds around it: the properties of \<open>Object.prototype\<close>, and the document.
  The document decides which tag names and attribute names it accepts and under which name
  it stores them (an HTML document stores them in lower case); \<open>None\<close> is its refusal, an
  \<open>InvalidCharacterError\<close>. \<open>Object.prototype\<close> is taken to have no property named \<open>type\<close>,
  \<open>tagName\<close>, \<open>attributes\<close> or \<open>children\<close>, the four the code reads from a node.
\<close>

record env =
  inherited :: "string \<rightharpoonup> jsval"
  element_name :: "string \<Rightarrow> string option"
  attribute_name :: "string \<Rightarrow> string option"

datatype error = TypeError | HierarchyRequestError | InvalidCharacterError

text \<open>\<open>null == v\<close>\<close>

fun nullish :: "jsval \<Rightarrow> bool" where
  "nullish Undefined = True"
| "nullish Null = True"
| "nullish _ = False"

text \<open>\<open>v === w\<close>\<close>

fun identical :: "jsval \<Rightarrow> jsval \<Rightarrow> bool" where
  "identical (Num NaN) w = False"
| "identical v w = (v = w)"

text \<open>\<open>typeof v === 'function'\<close>\<close>

fun is_function :: "jsval \<Rightarrow> bool" where
  "is_function (Fun i src) = True"
| "is_function _ = False"

text \<open>Truthiness, as tested by \<open>if (newNode.tagName)\<close>.\<close>

fun truthy :: "jsval \<Rightarrow> bool" where
  "truthy Undefined = False"
| "truthy Null = False"
| "truthy (Bool b) = b"
| "truthy (Num NaN) = False"
| "truthy (Num (Numeric t)) = (t \<noteq> ''0'')"
| "truthy (Str s) = (s \<noteq> [])"
| "truthy (Fun i src) = True"
| "truthy (Obj i) = True"

text \<open>\<open>Number.prototype.toString\<close>\<close>

fun number_toString :: "number \<Rightarrow> string" where
  "number_toString NaN = ''NaN''"
| "number_toString (Numeric t) = t"

text \<open>
  \<open>String(v)\<close>, which is also \<open>v.toString()\<close> where \<open>v\<close> is not \<open>null\<close> or \<open>undefined\<close>: the
  conversion the document applies to a tag name, a text or an attribute value.
\<close>

fun js_String :: "jsval \<Rightarrow> string" where
  "js_String Undefined = ''undefined''"
| "js_String Null = ''null''"
| "js_String (Bool b) = (if b then ''true'' else ''false'')"
| "js_String (Num n) = number_toString n"
| "js_String (Str s) = s"
| "js_String (Fun i src) = src"
| "js_String (Obj i) = ''[object Object]''"

text \<open>\<open>(null == v ? '' : v).toString()\<close>\<close>

definition normalized :: "jsval \<Rightarrow> string" where
  "normalized v = (if nullish v then [] else js_String v)"

text \<open>
  \<open>obj[key]\<close> on an attribute map: the own property, else the property inherited from
  \<open>Object.prototype\<close>, else \<open>undefined\<close>.
\<close>

definition lookup :: "env \<Rightarrow> attrs \<Rightarrow> string \<Rightarrow> jsval" where
  "lookup env obj key =
     (case map_of obj key of
        Some v \<Rightarrow> v
      | None \<Rightarrow> (case inherited env key of Some v \<Rightarrow> v | None \<Rightarrow> Undefined))"

text \<open>\<open>Object.keys(obj)\<close>\<close>

definition keys :: "attrs \<Rightarrow> string list" where
  "keys obj = map fst obj"

section \<open>Tree descriptions\<close>

text \<open>
  A node handed to \<open>changed\<close>, \<open>render\<close> and \<open>diff\<close>: \<open>undefined\<close>, \<open>null\<close>, a number or
  string leaf, or an object. The object carries the three properties \<open>vNode\<close> writes and the
  \<open>type\<close> property that \<open>changed\<close> reads; a property that is missing reads as \<open>Undefined\<close>
  (for \<open>attributes\<close>: as \<open>None\<close>). Objects without a \<open>children\<close> array, or whose
  \<open>attributes\<close> is something other than a missing property or an object, are outside the model.
\<close>

datatype vnode =
    VUndefined
  | VNull
  | VNum number
  | VStr string
  | VObj (node_type: jsval) (tagName: jsval) (attributes: "attrs option") (children: "vnode list")

text \<open>An argument of the rest parameter \<open>...nodes\<close>: one node or an array of nodes.\<close>

datatype child_arg = Node vnode | Nodes "vnode list"

text \<open>\<open>[].concat(...nodes)\<close>: an array argument is spread, any other argument is appended.\<close>

definition concat_spread :: "vnode list \<Rightarrow> child_arg list \<Rightarrow> vnode list" where
  "concat_spread start nodes =
     foldl (\<lambda>acc arg. case arg of Node v \<Rightarrow> acc @ [v] | Nodes vs \<Rightarrow> acc @ vs) start nodes"

text \<open>
  \<open>vNode(tagName, attributes = {}, ...nodes)\<close>. The attributes argument is \<open>None\<close> for
  \<open>undefined\<close> (the default applies) and for \<open>null\<close> (the test \<open>null == attributes\<close> applies).
  The object literal has no \<open>type\<close> property.
\<close>

definition vNode :: "jsval \<Rightarrow> attrs option \<Rightarrow> child_arg list \<Rightarrow> vnode" where
  "vNode tag attributes_arg nodes =
     VObj Undefined tag
       (Some (case attributes_arg of None \<Rightarrow> [] | Some a \<Rightarrow> a))
       (concat_spread [] nodes)"

definition h :: "jsval \<Rightarrow> attrs option \<Rightarrow> child_arg list \<Rightarrow> vnode" where
  "h = vNode"

section \<open>Change detection\<close>

datatype jstype = T_undefined | T_object | T_number | T_string

fun typeof :: "vnode \<Rightarrow> jstype" where
  "typeof VUndefined = T_undefined"
| "typeof VNull = T_object"
| "typeof (VNum n) = T_number"
| "typeof (VStr s) = T_string"
| "typeof (VObj ty tag a cs) = T_object"

text \<open>\<open>node1 === node2\<close> on two leaves.\<close>

fun same_leaf :: "vnode \<Rightarrow> vnode \<Rightarrow> bool" where
  "same_leaf (VNum NaN) node2 = False"
| "same_leaf node1 node2 = (node1 = node2)"

text \<open>\<open>node.type\<close>: a TypeError on \<open>null\<close> and \<open>undefined\<close>, \<open>undefined\<close> on a primitive.\<close>

fun get_type :: "vnode \<Rightarrow> error + jsval" where
  "get_type VUndefined = Inl TypeError"
| "get_type VNull = Inl TypeError"
| "get_type (VNum n) = Inr Undefined"
| "get_type (VStr s) = Inr Undefined"
| "get_type (VObj ty tag a cs) = Inr ty"

text \<open>\<open>node.attributes\<close>\<close>

fun get_attributes :: "vnode \<Rightarrow> error + attrs option" where
  "get_attributes VUndefined = Inl TypeError"
| "get_attributes VNull = Inl TypeError"
| "get_attributes (VNum n) = Inr None"
| "get_attributes (VStr s) = Inr None"
| "get_attributes (VObj ty tag a cs) = Inr a"

text \<open>
  The third conjunct of \<open>attributesChanged\<close>, on two attribute maps: the key counts differ,
  or some key of the first map has values that are not identical and whose normalized
  strings differ.
\<close>

definition attributes_differ :: "env \<Rightarrow> attrs \<Rightarrow> attrs \<Rightarrow> bool" where
  "attributes_differ env a1 a2 =
     (length (keys a1) \<noteq> length (keys a2) \<or>
      list_ex (\<lambda>a. \<not> identical (lookup env a1 a) (lookup env a2 a) \<and>
                   normalized (lookup env a1 a) \<noteq> normalized (lookup env a2 a))
        (keys a1))"

text \<open>The constant \<open>nodeChanged\<close>; \<open>||\<close> evaluates its right operand only when the left is false.\<close>

definition nodeChanged :: "vnode \<Rightarrow> vnode \<Rightarrow> error + bool" where
  "nodeChanged node1 node2 =
     (if typeof node1 \<noteq> typeof node2 then Inr True
      else if (typeof node1 = T_string \<or> typeof node1 = T_number) \<and> \<not> same_leaf node1 node2
        then Inr True
      else (case get_type node1 of
              Inl e \<Rightarrow> Inl e
            | Inr t1 \<Rightarrow> (case get_type node2 of
                           Inl e \<Rightarrow> Inl e
                         | Inr t2 \<Rightarrow> Inr (\<not> identical t1 t2))))"

text \<open>The constant \<open>attributesChanged\<close>; \<open>&&\<close> evaluates its right operand only when the left is true.\<close>

definition attributesChanged :: "env \<Rightarrow> vnode \<Rightarrow> vnode \<Rightarrow> error + bool" where
  "attributesChanged env node1 node2 =
     (case get_attributes node1 of
        Inl e \<Rightarrow> Inl e
      | Inr None \<Rightarrow> Inr False
      | Inr (Some a1) \<Rightarrow>
          (case get_attributes node2 of
             Inl e \<Rightarrow> Inl e
           | Inr None \<Rightarrow> Inr False
           | Inr (Some a2) \<Rightarrow> Inr (attributes_differ env a1 a2)))"

definition changed :: "env \<Rightarrow> vnode \<Rightarrow> vnode \<Rightarrow> error + bool" where
  "changed env node1 node2 =
     (case nodeChanged node1 node2 of
        Inl e \<Rightarrow> Inl e
      | Inr nc \<Rightarrow> (case attributesChanged env node1 node2 of
                     Inl e \<Rightarrow> Inl e
                   | Inr ac \<Rightarrow> Inr (nc \<or> ac)))"

section \<open>The host tree\<close>

text \<open>
  The live document, as far as the code touches it: text nodes, and elements with their
  attributes, event listeners and child nodes, under the names the document stores.
\<close>

datatype dom =
    TextNode string
  | Element (el_tag: string) (el_attributes: "(string \<times> string) list")
      (el_listeners: "(string \<times> jsval) list") (childNodes: "dom list")

text \<open>\<open>document.createTextNode(data)\<close>\<close>

definition createTextNode :: "jsval \<Rightarrow> dom" where
  "createTextNode data = TextNode (js_String data)"

text \<open>Writing an attribute replaces the value of an attribute that is there.\<close>

fun put_attribute :: "(string \<times> string) list \<Rightarrow> string \<Rightarrow> string \<Rightarrow> (string \<times> string) list" where
  "put_attribute [] name v = [(name, v)]"
| "put_attribute ((k, w) # rest) name v =
     (if k = name then (k, v) # rest else (k, w) # put_attribute rest name v)"

text \<open>
  \<open>$element.setAttribute(key, value)\<close>, on the attributes of the element: an
  \<open>InvalidCharacterError\<close> when the document refuses the name.
\<close>

definition setAttribute ::
  "env \<Rightarrow> (string \<times> string) list \<Rightarrow> string \<Rightarrow> string \<Rightarrow> error + (string \<times> string) list" where
  "setAttribute env as key v =
     (case attribute_name env key of
        None \<Rightarrow> Inl InvalidCharacterError
      | Some name \<Rightarrow> Inr (put_attribute as name v))"

text \<open>
  \<open>$element.addEventListener(key, callback)\<close>, on the listeners of the element: a listener
  already registered is not added again.
\<close>

definition addEventListener :: "(string \<times> jsval) list \<Rightarrow> string \<Rightarrow> jsval \<Rightarrow> (string \<times> jsval) list" where
  "addEventListener ls key callback = (if (key, callback) \<in> set ls then ls else ls @ [(key, callback)])"

text \<open>
  The loop \<open>.forEach(key => ...)\<close> of \<open>createElement\<close> over the keys that are left after
  the filter: a function becomes a listener, any other value an attribute.
\<close>

fun apply_attributes ::
  "env \<Rightarrow> attrs \<Rightarrow> (string \<times> string) list \<times> (string \<times> jsval) list \<Rightarrow> string list
     \<Rightarrow> error + ((string \<times> string) list \<times> (string \<times> jsval) list)" where
  "apply_attributes env attribs el [] = Inr el"
| "apply_attributes env attribs el (key # rest) =
     (if is_function (lookup env attribs key) then
        apply_attributes env attribs
          (fst el, addEventListener (snd el) key (lookup env attribs key)) rest
      else
        (case setAttribute env (fst el) key (js_String (lookup env attribs key)) of
           Inl e \<Rightarrow> Inl e
         | Inr as \<Rightarrow> apply_attributes env attribs (as, snd el) rest))"

text \<open>
  \<open>createElement(tagName, attributes = {})('')\<close>: \<open>document.createElement\<close> raises an
  \<open>InvalidCharacterError\<close> when the document refuses the tag name. The content is empty, so
  \<open>innerHTML\<close> is not written. The keys whose value is \<open>null\<close> or \<open>undefined\<close> are filtered
  out.
\<close>

definition createElement :: "env \<Rightarrow> jsval \<Rightarrow> attrs option \<Rightarrow> error + dom" where
  "createElement env tag attributes_arg =
     (case element_name env (js_String tag) of
        None \<Rightarrow> Inl InvalidCharacterError
      | Some name \<Rightarrow>
          (let attribs = (case attributes_arg of None \<Rightarrow> [] | Some a \<Rightarrow> a)
           in case apply_attributes env attribs ([], [])
                     (filter (\<lambda>key. \<not> nullish (lookup env attribs key)) (keys attribs)) of
                Inl e \<Rightarrow> Inl e
              | Inr el \<Rightarrow> Inr (Element name (fst el) (snd el) [])))"

text \<open>\<open>$parent.childNodes[index]\<close>: \<open>undefined\<close> out of range; a text node has no child nodes.\<close>

fun child_at :: "dom \<Rightarrow> nat \<Rightarrow> dom option" where
  "child_at (TextNode s) index = None"
| "child_at (Element t a l cs) index = (if index < length cs then Some (cs ! index) else None)"

text \<open>\<open>$parent.appendChild(node)\<close>: a text node takes no children.\<close>

fun appendChild :: "dom \<Rightarrow> dom \<Rightarrow> error + dom" where
  "appendChild (TextNode s) node = Inl HierarchyRequestError"
| "appendChild (Element t a l cs) node = Inr (Element t a l (cs @ [node]))"

text \<open>\<open>$parent.removeChild($parent.childNodes[index])\<close>: a TypeError when there is no such child.\<close>

fun removeChild :: "dom \<Rightarrow> nat \<Rightarrow> error + dom" where
  "removeChild (TextNode s) index = Inl TypeError"
| "removeChild (Element t a l cs) index =
     (if index < length cs then Inr (Element t a l (take index cs @ drop (Suc index) cs))
      else Inl TypeError)"

text \<open>\<open>$parent.replaceChild(node, $parent.childNodes[index])\<close>\<close>

fun replaceChild :: "dom \<Rightarrow> dom \<Rightarrow> nat \<Rightarrow> error + dom" where
  "replaceChild (TextNode s) node index = Inl TypeError"
| "replaceChild (Element t a l cs) node index =
     (if index < length cs then Inr (Element t a l (cs[index := node])) else Inl TypeError)"

text \<open>
  The recursion of \<open>diff\<close> changes the child \<open>$parent.childNodes[index]\<close> in place. In the
  model the changed child is put back at its position; no child (\<open>None\<close>) leaves the parent as
  it is.
\<close>

fun put_child :: "dom \<Rightarrow> nat \<Rightarrow> dom option \<Rightarrow> dom" where
  "put_child p index None = p"
| "put_child (TextNode s) index (Some c) = TextNode s"
| "put_child (Element t a l cs) index (Some c) = Element t a l (cs[index := c])"

section \<open>Materializing a description\<close>

text \<open>
  \<open>render\<close>, with the loop \<open>node.children.forEach(c => $element.appendChild(render(c)))\<close>
  as \<open>render_children\<close>.
\<close>

fun render :: "env \<Rightarrow> vnode \<Rightarrow> error + dom"
  and render_children :: "env \<Rightarrow> dom \<Rightarrow> vnode list \<Rightarrow> error + dom" where
  "render env VUndefined = Inr (createTextNode (Str []))"
| "render env VNull = Inr (createTextNode (Str []))"
| "render env (VNum n) = Inr (createTextNode (Num n))"
| "render env (VStr s) = Inr (createTextNode (Str s))"
| "render env (VObj ty tag a cs) =
     (case createElement env tag a of
        Inl e \<Rightarrow> Inl e
      | Inr el \<Rightarrow> render_children env el cs)"
| "render_children env el [] = Inr el"
| "render_children env el (c # cs) =
     (case render env c of
        Inl e \<Rightarrow> Inl e
      | Inr node \<Rightarrow> (case appendChild el node of
                       Inl e \<Rightarrow> Inl e
                     | Inr el' \<Rightarrow> render_children env el' cs))"

section \<open>Reconciliation\<close>

text \<open>The host mutations \<open>diff\<close> issues, in the order it issues them.\<close>

datatype mutation = AppendChild dom | RemoveChild nat | ReplaceChild nat dom

text \<open>\<open>null == node\<close>\<close>

fun is_null :: "vnode \<Rightarrow> bool" where
  "is_null VUndefined = True"
| "is_null VNull = True"
| "is_null _ = False"

text \<open>\<open>oldNode.children\<close>: \<open>undefined\<close> on a primitive.\<close>

fun get_children :: "vnode \<Rightarrow> vnode list option" where
  "get_children (VObj ty tag a cs) = Some cs"
| "get_children _ = None"

text \<open>\<open>array[i]\<close>: \<open>undefined\<close> out of range.\<close>

definition element_at :: "vnode list \<Rightarrow> nat \<Rightarrow> vnode" where
  "element_at xs i = (if i < length xs then xs ! i else VUndefined)"

text \<open>
  \<open>diff($parent, oldNode, newNode, index)\<close> returns the parent after the call and the
  mutations issued. The parent is \<open>None\<close> when the caller passed \<open>undefined\<close> (a child position
  that does not exist). \<open>diff_children\<close> is the loop over \<open>newNode.children\<close> from position
  \<open>i\<close>. An exception ends the call; the model then reports the exception only.
\<close>

fun diff ::
    "env \<Rightarrow> dom option \<Rightarrow> vnode \<Rightarrow> vnode \<Rightarrow> nat \<Rightarrow> error + (dom option \<times> mutation list)"
  and diff_children ::
    "env \<Rightarrow> dom option \<Rightarrow> nat \<Rightarrow> vnode list option \<Rightarrow> vnode list \<Rightarrow> nat
       \<Rightarrow> error + (dom option \<times> mutation list)" where
  "diff env parent oldNode newNode index =
     (if is_null oldNode then
        (case parent of
           None \<Rightarrow> Inl TypeError
         | Some p \<Rightarrow>
             (case render env newNode of
                Inl e \<Rightarrow> Inl e
              | Inr node \<Rightarrow> (case appendChild p node of
                               Inl e \<Rightarrow> Inl e
                             | Inr p' \<Rightarrow> Inr (Some p', [AppendChild node]))))
      else if is_null newNode then
        (case parent of
           None \<Rightarrow> Inl TypeError
         | Some p \<Rightarrow> (case removeChild p index of
                        Inl e \<Rightarrow> Inl e
                      | Inr p' \<Rightarrow> Inr (Some p', [RemoveChild index])))
      else
        (case changed env oldNode newNode of
           Inl e \<Rightarrow> Inl e
         | Inr True \<Rightarrow>
             (case parent of
                None \<Rightarrow> Inl TypeError
              | Some p \<Rightarrow>
                  (case render env newNode of
                     Inl e \<Rightarrow> Inl e
                   | Inr node \<Rightarrow> (case replaceChild p node index of
                                    Inl e \<Rightarrow> Inl e
                                  | Inr p' \<Rightarrow> Inr (Some p', [ReplaceChild index node]))))
         | Inr False \<Rightarrow>
             (case newNode of
                VObj ty tag a cs \<Rightarrow>
                  (if truthy tag then diff_children env parent index (get_children oldNode) cs 0
                   else Inr (parent, []))
              | _ \<Rightarrow> Inr (parent, []))))"
| "diff_children env parent index olds [] i = Inr (parent, [])"
| "diff_children env parent index olds (newNode # rest) i =
     (case parent of
        None \<Rightarrow> Inl TypeError
      | Some p \<Rightarrow>
          (case olds of
             None \<Rightarrow> Inl TypeError
           | Some os \<Rightarrow>
               (case diff env (child_at p index) (element_at os i) newNode i of
                  Inl e \<Rightarrow> Inl e
                | Inr (child, ms) \<Rightarrow>
                    (case diff_children env (Some (put_child p index child)) index olds rest (Suc i) of
                       Inl e \<Rightarrow> Inl e
                     | Inr (p', ms') \<Rightarrow> Inr (p', ms @ ms')))))"

section \<open>The render loop\<close>

text \<open>
  The closure that \<open>mount\<close> creates: the constants \<open>view\<close> and \<open>useDiffing\<close>, the variables
  \<open>_state\<close> and \<open>vDom\<close>, and the live \<open>$root\<close>. The state is an object, read as a map from
  keys to values. The view is a function of the state it reads through \<open>viewParams\<close>; the
  \<open>setState\<close> it receives is only called later, from event handlers, so a view that calls
  it while it is being evaluated is outside the model.
\<close>

record 'v mount_point =
  view :: "(string \<rightharpoonup> 'v) \<Rightarrow> vnode"
  useDiffing :: bool
  state :: "string \<rightharpoonup> 'v"
  vDom :: vnode
  root :: dom

text \<open>\<open>mount($root, view, initialState, useDiffing)\<close>\<close>

definition mount ::
  "env \<Rightarrow> dom \<Rightarrow> ((string \<rightharpoonup> 'v) \<Rightarrow> vnode) \<Rightarrow> (string \<rightharpoonup> 'v) \<Rightarrow> bool
     \<Rightarrow> error + 'v mount_point" where
  "mount env root0 view0 initialState useDiffing0 =
     (let vDom0 = view0 initialState in
      case render env vDom0 of
        Inl e \<Rightarrow> Inl e
      | Inr node \<Rightarrow>
          (case (case child_at root0 0 of
                   Some first \<Rightarrow> replaceChild root0 node 0
                 | None \<Rightarrow> appendChild root0 node) of
             Inl e \<Rightarrow> Inl e
           | Inr r \<Rightarrow>
               Inr \<lparr>view = view0, useDiffing = useDiffing0, state = initialState,
                    vDom = vDom0, root = r\<rparr>))"

text \<open>
  \<open>setState(newState)\<close>: the spread \<open>{ ..._state, ...newState }\<close> is the map \<open>state ++ newState\<close>.
  \<open>diff\<close> is handed the root itself, so it returns a root; the branch for \<open>None\<close> is never
  taken. An exception leaves the call before \<open>vDom\<close> is assigned; the model then reports
  the exception only.
\<close>

definition setState ::
  "env \<Rightarrow> 'v mount_point \<Rightarrow> (string \<rightharpoonup> 'v) \<Rightarrow> error + 'v mount_point" where
  "setState env m newState =
     (let state' = state m ++ newState;
          newVDom = view m state'
      in case (if useDiffing m then
                 (case diff env (Some (root m)) (vDom m) newVDom 0 of
                    Inl e \<Rightarrow> Inl e
                  | Inr (r, ms) \<Rightarrow> Inr (case r of Some r' \<Rightarrow> r' | None \<Rightarrow> root m))
               else
                 (case render env newVDom of
                    Inl e \<Rightarrow> Inl e
                  | Inr node \<Rightarrow> replaceChild (root m) node 0)) of
           Inl e \<Rightarrow> Inl e
         | Inr r \<Rightarrow> Inr (m\<lparr>state := state', vDom := newVDom, root := r\<rparr>))"

section \<open>Observables\<close>

text \<open>
  \<open>Observable(value)\<close>: the closure's variable \<open>value\<close> and its array \<open>listeners\<close>. Values
  are compared with HOL's equality where the code uses \<open>===\<close>. A listener is an opaque
  callback; calling the listeners is recorded as the list of calls made, each with its
  arguments, in order. A listener that calls back into the observable is outside the model.
  The variable \<open>value\<close> is the field \<open>obs_value\<close>.
\<close>

record ('a, 'l) observable =
  obs_value :: 'a
  listeners :: "'l list"

definition Observable :: "'a \<Rightarrow> ('a, 'l) observable" where
  "Observable v = \<lparr>obs_value = v, listeners = []\<rparr>"

definition onChange :: "'l \<Rightarrow> ('a, 'l) observable \<Rightarrow> ('a, 'l) observable" where
  "onChange callback obs = obs\<lparr>listeners := listeners obs @ [callback]\<rparr>"

definition getValue :: "('a, 'l) observable \<Rightarrow> 'a" where
  "getValue obs = obs_value obs"

text \<open>\<open>setValue(newValue)\<close>: the new observable and the calls \<open>notify(newValue, value)\<close> made.\<close>

definition setValue ::
  "'a \<Rightarrow> ('a, 'l) observable \<Rightarrow> ('a, 'l) observable \<times> ('l \<times> 'a \<times> 'a) list" where
  "setValue newValue obs =
     (if obs_value obs = newValue then (obs, [])
      else (obs\<lparr>obs_value := newValue\<rparr>,
            map (\<lambda>notify. (notify, newValue, obs_value obs)) (listeners obs)))"

text \<open>
  \<open>ObservableList(list)\<close>: the decorated array \<open>list\<close> (the field \<open>items\<close>) and the two
  listener arrays.
\<close>

record ('a, 'l) observable_list =
  items :: "'a list"
  addListeners :: "'l list"
  delListeners :: "'l list"

definition ObservableList :: "'a list \<Rightarrow> ('a, 'l) observable_list" where
  "ObservableList xs = \<lparr>items = xs, addListeners = [], delListeners = []\<rparr>"

definition onAdd :: "'l \<Rightarrow> ('a, 'l) observable_list \<Rightarrow> ('a, 'l) observable_list" where
  "onAdd listener ol = ol\<lparr>addListeners := addListeners ol @ [listener]\<rparr>"

definition onDel :: "'l \<Rightarrow> ('a, 'l) observable_list \<Rightarrow> ('a, 'l) observable_list" where
  "onDel listener ol = ol\<lparr>delListeners := delListeners ol @ [listener]\<rparr>"

text \<open>\<open>list.indexOf(item)\<close>: the first position holding the item, \<open>-1\<close> when there is none.\<close>

fun indexOf :: "'a list \<Rightarrow> 'a \<Rightarrow> int" where
  "indexOf [] item = - 1"
| "indexOf (x # xs) item =
     (if x = item then 0 else (let i = indexOf xs item in if i < 0 then - 1 else i + 1))"

text \<open>\<open>list.splice(i, 1)\<close> for a position \<open>i \<ge> 0\<close>.\<close>

definition splice1 :: "'a list \<Rightarrow> nat \<Rightarrow> 'a list" where
  "splice1 xs i = take i xs @ drop (Suc i) xs"

text \<open>\<open>add(item)\<close> and \<open>del(item)\<close>: the new list and the calls \<open>listener(item)\<close> made.\<close>

definition add :: "'a \<Rightarrow> ('a, 'l) observable_list \<Rightarrow> ('a, 'l) observable_list \<times> ('l \<times> 'a) list" where
  "add item ol =
     (ol\<lparr>items := items ol @ [item]\<rparr>, map (\<lambda>listener. (listener, item)) (addListeners ol))"

definition del :: "'a \<Rightarrow> ('a, 'l) observable_list \<Rightarrow> ('a, 'l) observable_list \<times> ('l \<times> 'a) list" where
  "del item ol =
     (let i = indexOf (items ol) item;
          ol' = (if i \<ge> 0 then ol\<lparr>items := splice1 (items ol) (nat i)\<rparr> else ol)
      in (ol', map (\<lambda>listener. (listener, item)) (delListeners ol)))"

definition count :: "('a, 'l) observable_list \<Rightarrow> nat" where
  "count ol = length (items ol)"

section \<open>The specification's notions\<close>

text \<open>
  The one-level flattening of the children arguments, as the specification words it: each
  argument contributes its elements when it is a sequence and itself otherwise, in order.
\<close>

definition flatten_one_level :: "child_arg list \<Rightarrow> vnode list" where
  "flatten_one_level nodes =
     concat (map (\<lambda>arg. case arg of Node v \<Rightarrow> [v] | Nodes vs \<Rightarrow> vs) nodes)"

text \<open>
  The descriptions on which a second \<open>diff\<close> finds nothing to do: a string leaf, a number
  leaf other than \<open>NaN\<close>, or an element whose children are such descriptions again, none
  of them \<open>null\<close> or \<open>undefined\<close>. The \<open>type\<close> property of an element, which \<open>vNode\<close> never
  writes, is not \<open>NaN\<close> either.
\<close>

fun is_description :: "vnode \<Rightarrow> bool" where
  "is_description VUndefined = False"
| "is_description VNull = False"
| "is_description (VNum n) = (n \<noteq> NaN)"
| "is_description (VStr s) = True"
| "is_description (VObj ty tag a cs) = (ty \<noteq> Num NaN \<and> list_all is_description cs)"

text \<open>The attribute map of an element description; the empty map when there is none.\<close>

definition own_attributes :: "attrs option \<Rightarrow> attrs" where
  "own_attributes a = (case a of None \<Rightarrow> [] | Some x \<Rightarrow> x)"

text \<open>
  The keys of an attribute map that are written as attributes: those whose value is not
  \<open>null\<close>, \<open>undefined\<close> or a function.
\<close>

definition attribute_keys :: "env \<Rightarrow> attrs option \<Rightarrow> string list" where
  "attribute_keys env a =
     filter (\<lambda>key. \<not> nullish (lookup env (own_attributes a) key) \<and>
                    \<not> is_function (lookup env (own_attributes a) key))
       (keys (own_attributes a))"

text \<open>
  What reading an attribute of the materialized element gives: the string of the value
  of the last key, among those written, that the document stores under the name.
\<close>

definition written_attribute :: "env \<Rightarrow> attrs option \<Rightarrow> string \<Rightarrow> string option" where
  "written_attribute env a name =
     (case find (\<lambda>key. attribute_name env key = Some name) (rev (attribute_keys env a)) of
        None \<Rightarrow> None
      | Some key \<Rightarrow> Some (js_String (lookup env (own_attributes a) key)))"

text \<open>The listeners of the materialized element: one for each key whose value is a function.\<close>

definition registered_listeners :: "env \<Rightarrow> attrs option \<Rightarrow> (string \<times> jsval) list" where
  "registered_listeners env a =
     map (\<lambda>key. (key, lookup env (own_attributes a) key))
       (filter (\<lambda>key. is_function (lookup env (own_attributes a) key)) (keys (own_attributes a)))"

text \<open>
  The document accepts every name in a description: the tag name of each element, and
  each of its keys that is written as an attribute.
\<close>

fun names_accepted :: "env \<Rightarrow> vnode \<Rightarrow> bool" where
  "names_accepted env (VObj ty tag a cs) =
     (element_name env (js_String tag) \<noteq> None \<and>
      list_all (\<lambda>key. attribute_name env key \<noteq> None) (attribute_keys env a) \<and>
      list_all (names_accepted env) cs)"
| "names_accepted env _ = True"

section \<open>Example inputs\<close>

text \<open>
  One environment, for the examples. Its \<open>Object.prototype\<close> has the members every engine
  gives it, with the source texts of one engine. Its document accepts a name that starts with
  an ASCII letter, \<open>_\<close> or \<open>:\<close> and goes on with ASCII letters, digits, \<open>-\<close>, \<open>.\<close>, \<open>_\<close> and
  \<open>:\<close>, and stores it in lower case, as the HTML document of a browser does with such a
  name. It refuses every other name; among them are the empty name and the names with a
  space, which the document of a browser refuses too.
\<close>

definition lower_case :: "char \<Rightarrow> char" where
  "lower_case c =
     (case map_of (zip ''ABCDEFGHIJKLMNOPQRSTUVWXYZ'' ''abcdefghijklmnopqrstuvwxyz'') c of
        None \<Rightarrow> c
      | Some l \<Rightarrow> l)"

definition name_start :: "char \<Rightarrow> bool" where
  "name_start c = (c \<in> set ''abcdefghijklmnopqrstuvwxyzABCDEFGHIJKLMNOPQRSTUVWXYZ_:'')"

definition name_char :: "char \<Rightarrow> bool" where
  "name_char c = (name_start c \<or> c \<in> set ''0123456789-.'')"

definition stored_name :: "string \<Rightarrow> string option" where
  "stored_name s =
     (case s of
        [] \<Rightarrow> None
      | c # cs \<Rightarrow> if name_start c \<and> list_all name_char cs then Some (map lower_case s) else None)"

definition sample_env :: env where
  "sample_env =
     \<lparr>inherited = map_of
        [(''constructor'', Fun 100 ''function Object() { [native code] }''),
         (''hasOwnProperty'', Fun 101 ''function hasOwnProperty() { [native code] }''),
         (''isPrototypeOf'', Fun 102 ''function isPrototypeOf() { [native code] }''),
         (''propertyIsEnumerable'', Fun 103 ''function propertyIsEnumerable() { [native code] }''),
         (''toLocaleString'', Fun 104 ''function toLocaleString() { [native code] }''),
         (''toString'', Fun 105 ''function toString() { [native code] }''),
         (''valueOf'', Fun 106 ''function valueOf() { [native code] }''),
         (''__defineGetter__'', Fun 107 ''function __defineGetter__() { [native code] }''),
         (''__defineSetter__'', Fun 108 ''function __defineSetter__() { [native code] }''),
         (''__lookupGetter__'', Fun 109 ''function __lookupGetter__() { [native code] }''),
         (''__lookupSetter__'', Fun 110 ''function __lookupSetter__() { [native code] }''),
         (''__proto__'', Obj 0)],
      element_name = stored_name,
      attribute_name = stored_name\<rparr>"

text \<open>The view of the counter scenario: a text leaf equal to \<open>state.count\<close>.\<close>

definition count_view :: "(string \<rightharpoonup> number) \<Rightarrow> vnode" where
  "count_view s = (case s ''count'' of None \<Rightarrow> VNull | Some n \<Rightarrow> VNum n)"

text \<open>
  \<open>h('ul', {}, h('li', {}, 'a'), h('li', {}, 'b'))\<close>, \<open>h('ul', {}, h('li', {}, 'a'))\<close>, and a
  live \<open><div>\<close> whose first child is the list with two items.
\<close>

definition two_items :: vnode where
  "two_items = h (Str ''ul'') (Some [])
     [Node (h (Str ''li'') (Some []) [Node (VStr ''a'')]),
      Node (h (Str ''li'') (Some []) [Node (VStr ''b'')])]"

definition one_item :: vnode where
  "one_item = h (Str ''ul'') (Some []) [Node (h (Str ''li'') (Some []) [Node (VStr ''a'')])]"

definition live_two_items :: dom where
  "live_two_items = Element ''div'' [] []
     [Element ''ul'' [] []
        [Element ''li'' [] [] [TextNode ''a''], Element ''li'' [] [] [TextNode ''b'']]]"

text \<open>
  \<open>h('li', { id: 7, click: f }, 'a', 3)\<close> and \<open>h('td', { id: '7', click: g }, 'a', 3)\<close>, where
  \<open>f\<close> and \<open>g\<close> are two closures of the same source text, and a live \<open><ul>\<close> whose first
  child was rendered from the former.
\<close>

definition item_seven :: vnode where
  "item_seven =
     h (Str ''li'') (Some [(''id'', Num (Numeric ''7'')), (''click'', Fun 1 ''evt => edit(row)'')])
       [Node (VStr ''a''), Node (VNum (Numeric ''3''))]"

definition cell_seven :: vnode where
  "cell_seven =
     h (Str ''td'') (Some [(''id'', Str ''7''), (''click'', Fun 2 ''evt => edit(row)'')])
       [Node (VStr ''a''), Node (VNum (Numeric ''3''))]"

definition live_item_seven :: dom where
  "live_item_seven = Element ''ul'' [] []
     [Element ''li'' [(''id'', ''7'')] [(''click'', Fun 1 ''evt => edit(row)'')]
        [TextNode ''a'', TextNode ''3'']]"

text \<open>
  \<open>h('ul', {}, null)\<close> and the live \<open><div>\<close> whose first child was rendered from it; and
  \<open>h('DIV', { Title: 't', click: f }, 'a')\<close>.
\<close>

definition list_with_null :: vnode where
  "list_with_null = h (Str ''ul'') (Some []) [Node VNull]"

definition live_list_with_null :: dom where
  "live_list_with_null = Element ''div'' [] [] [Element ''ul'' [] [] [TextNode []]]"

definition titled :: vnode where
  "titled = h (Str ''DIV'') (Some [(''Title'', Str ''t''), (''click'', Fun 1 ''evt => edit(row)'')])
     [Node (VStr ''a'')]"

section \<open>Construction of descriptions\<close>

lemma concat_spread_append: "concat_spread start nodes = start @ flatten_one_level nodes"
  unfolding concat_spread_def flatten_one_level_def
  by (induction nodes arbitrary: start) (auto split: child_arg.splits)

text \<open>
  C7: the children of a description built by \<open>vNode\<close> (or \<open>h\<close>) are the one-level flattening
  of the children arguments, and its attributes are never missing: a \<open>null\<close> or \<open>undefined\<close>
  argument gives the empty map, an object is kept as it is.
\<close>

theorem vNode_children_flat_attributes_present:
  "children (vNode tag a nodes) = flatten_one_level nodes \<and>
   attributes (vNode tag a nodes) \<noteq> None \<and>
   attributes (vNode tag None nodes) = Some [] \<and>
   attributes (vNode tag (Some obj) nodes) = Some obj \<and>
   h tag a nodes = vNode tag a nodes"
  by (simp add: vNode_def h_def concat_spread_append)

section \<open>The change detector\<close>

text \<open>
  C4: on two element descriptions the result of \<open>changed\<close> is the same whatever their
  children are; it is the result on the two descriptions with no children.
\<close>

theorem changed_ignores_children:
  "changed env (VObj ty1 tag1 a1 c1) (VObj ty2 tag2 a2 c2) =
   changed env (VObj ty1 tag1 a1 []) (VObj ty2 tag2 a2 [])"
  by (simp add: changed_def nodeChanged_def attributesChanged_def split: sum.splits option.splits)

lemma identical_eq: "identical v w \<longleftrightarrow> v = w \<and> v \<noteq> Num NaN"
  by (cases "(v, w)" rule: identical.cases) auto

lemma same_leaf_eq: "same_leaf m n \<longleftrightarrow> m = n \<and> m \<noteq> VNum NaN"
  by (cases "(m, n)" rule: same_leaf.cases) auto

text \<open>
  What the attribute comparison decides: identical values have the same string, so the
  test comes down to the normalized strings, taken at the keys of the first map only.
\<close>

lemma attributes_differ_iff:
  "attributes_differ env a1 a2 \<longleftrightarrow>
     length (keys a1) \<noteq> length (keys a2) \<or>
     (\<exists>k \<in> set (keys a1). normalized (lookup env a1 k) \<noteq> normalized (lookup env a2 k))"
proof -
  have "\<And>x y. (\<not> identical x y \<and> normalized x \<noteq> normalized y) = (normalized x \<noteq> normalized y)"
    by (auto simp: identical_eq)
  then show ?thesis by (simp add: attributes_differ_def list_ex_iff)
qed

lemma attributes_differ_same: "\<not> attributes_differ env a a"
  by (simp add: attributes_differ_iff)

lemma changed_same:
  "is_description d \<Longrightarrow> changed env d d = Inr False"
  by (cases d) (simp_all add: changed_def nodeChanged_def attributesChanged_def
      attributes_differ_same same_leaf_eq identical_eq split: option.splits)

lemma changed_vNode:
  "changed env (vNode tag1 A1 n1) (vNode tag2 A2 n2) =
     Inr (attributes_differ env (case A1 of None \<Rightarrow> [] | Some a \<Rightarrow> a)
                                (case A2 of None \<Rightarrow> [] | Some a \<Rightarrow> a))"
  by (simp add: changed_def nodeChanged_def attributesChanged_def vNode_def
      split: sum.splits option.splits)

lemma changed_number_and_string_attribute:
  "changed env (h tag (Some [(k, Num (Numeric ''1''))]) ns) (h tag (Some [(k, Str ''1'')]) ns)
     = Inr False"
  by (simp add: h_def changed_vNode attributes_differ_iff keys_def lookup_def normalized_def)

text \<open>
  The cases of the repository's tests \<open>nodeChanged\<close> and \<open>attributesChanged\<close>, and a key that
  the second map inherits.
\<close>

lemma changed_as_tested:
  "changed sample_env (VNum (Numeric ''1'')) (VNum (Numeric ''1'')) = Inr False"
  "changed sample_env (VNum (Numeric ''1'')) (VNum (Numeric ''2'')) = Inr True"
  "changed sample_env (VNum (Numeric ''1'')) (VObj Undefined (Str ''p'') None []) = Inr True"
  "changed sample_env (VObj Undefined (Str ''p'') None []) (VObj Undefined (Str ''p'') None [])
     = Inr False"
  "changed sample_env (VObj Undefined Undefined (Some [(''test'', Num (Numeric ''1''))]) [])
           (VObj Undefined Undefined (Some [(''test'', Num (Numeric ''1''))]) []) = Inr False"
  "changed sample_env (VObj Undefined Undefined (Some [(''test'', Num (Numeric ''1''))]) [])
           (VObj Undefined Undefined (Some [(''test'', Num (Numeric ''2''))]) []) = Inr True"
  "changed sample_env (VObj Undefined Undefined (Some [(''test'', Num (Numeric ''1''))]) [])
           (VObj Undefined Undefined (Some []) []) = Inr True"
  by code_simp+

lemma changed_inherited_property:
  "changed sample_env (h (Str ''p'') (Some [(''constructor'', Str [])]) [])
                   (h (Str ''p'') (Some [(''x'', Str [])]) []) = Inr True"
  by code_simp

text \<open>
  C2: the detector misses a divergence of the attribute maps. The maps \<open>{ x: '' }\<close> and
  \<open>{ y: 'z' }\<close> have one key each, and the key \<open>y\<close> has different normalized values in the two
  (the empty string for the missing value, and \<open>z\<close>); \<open>changed\<close> still returns false, since
  it compares at the keys of its first argument only, and \<open>diff\<close> leaves the live
  \<open><p x="">\<close> as it is.
\<close>

theorem changed_misses_key_of_second_map:
  "length (keys [(''x'', Str [])]) = length (keys [(''y'', Str ''z'')]) \<and>
   normalized (lookup sample_env [(''x'', Str [])] ''y'') \<noteq>
     normalized (lookup sample_env [(''y'', Str ''z'')] ''y'') \<and>
   changed sample_env (h (Str ''p'') (Some [(''x'', Str [])]) [])
                   (h (Str ''p'') (Some [(''y'', Str ''z'')]) []) = Inr False \<and>
   render sample_env (h (Str ''p'') (Some [(''x'', Str [])]) []) =
     Inr (Element ''p'' [(''x'', [])] [] []) \<and>
   diff sample_env (Some (Element ''div'' [] [] [Element ''p'' [(''x'', [])] [] []]))
        (h (Str ''p'') (Some [(''x'', Str [])]) []) (h (Str ''p'') (Some [(''y'', Str ''z'')]) []) 0
     = Inr (Some (Element ''div'' [] [] [Element ''p'' [(''x'', [])] [] []]), [])"
  by code_simp

section \<open>Materialization\<close>

text \<open>When \<open>createElement\<close> returns, and what it has built then.\<close>

lemma apply_attributes_error:
  "apply_attributes env attribs el ks = Inl e \<Longrightarrow> e = InvalidCharacterError"
  by (induction ks arbitrary: el)
     (auto simp: setAttribute_def split: if_splits sum.splits option.splits)

lemma apply_attributes_returns:
  "(\<exists>r. apply_attributes env attribs el ks = Inr r) \<longleftrightarrow>
   list_all (\<lambda>key. attribute_name env key \<noteq> None)
     (filter (\<lambda>key. \<not> is_function (lookup env attribs key)) ks)"
  by (induction ks arbitrary: el)
     (auto simp: setAttribute_def split: sum.splits option.splits)

lemma createElement_error: "createElement env tag a = Inl e \<Longrightarrow> e = InvalidCharacterError"
  by (auto simp: createElement_def Let_def dest: apply_attributes_error
      split: option.splits sum.splits)

lemma createElement_returns:
  "(\<exists>el. createElement env tag a = Inr el) \<longleftrightarrow>
   element_name env (js_String tag) \<noteq> None \<and>
   list_all (\<lambda>key. attribute_name env key \<noteq> None) (attribute_keys env a)"
proof -
  let ?attribs = "own_attributes a"
  let ?ks = "filter (\<lambda>key. \<not> nullish (lookup env ?attribs key)) (keys ?attribs)"
  have keys: "attribute_keys env a =
              filter (\<lambda>key. \<not> is_function (lookup env ?attribs key)) ?ks"
    by (simp add: attribute_keys_def conj_commute)
  have attrs: "(\<exists>r. apply_attributes env ?attribs ([], []) ?ks = Inr r) \<longleftrightarrow>
               list_all (\<lambda>key. attribute_name env key \<noteq> None) (attribute_keys env a)"
    by (simp only: keys apply_attributes_returns)
  have "(\<exists>el. createElement env tag a = Inr el) \<longleftrightarrow>
        element_name env (js_String tag) \<noteq> None \<and>
        (\<exists>r. apply_attributes env ?attribs ([], []) ?ks = Inr r)"
    by (auto simp: createElement_def Let_def own_attributes_def split: option.splits sum.splits)
  with attrs show ?thesis by blast
qed

lemma find_append_cases:
  "find P (xs @ ys) = (case find P xs of None \<Rightarrow> find P ys | Some x \<Rightarrow> Some x)"
  by (induction xs) simp_all

lemma map_of_put_attribute: "map_of (put_attribute as name v) = (map_of as)(name \<mapsto> v)"
  by (induction as name v rule: put_attribute.induct) (auto simp: fun_eq_iff)

lemma apply_attributes_attributes:
  "apply_attributes env attribs (as0, ls0) ks = Inr (as, ls) \<Longrightarrow>
   map_of as name =
     (case find (\<lambda>key. attribute_name env key = Some name)
             (rev (filter (\<lambda>key. \<not> is_function (lookup env attribs key)) ks)) of
        None \<Rightarrow> map_of as0 name
      | Some key \<Rightarrow> Some (js_String (lookup env attribs key)))"
proof (induction ks arbitrary: as0 ls0)
  case Nil
  then show ?case by simp
next
  case (Cons k ks)
  show ?case
  proof (cases "is_function (lookup env attribs k)")
    case True
    with Cons.prems have
      "apply_attributes env attribs (as0, addEventListener ls0 k (lookup env attribs k)) ks =
       Inr (as, ls)" by simp
    from Cons.IH [OF this] True show ?thesis by simp
  next
    case False
    with Cons.prems obtain n where
      n: "attribute_name env k = Some n" and
      rest: "apply_attributes env attribs
               (put_attribute as0 n (js_String (lookup env attribs k)), ls0) ks = Inr (as, ls)"
      by (auto simp: setAttribute_def split: option.splits sum.splits)
    from Cons.IH [OF rest] False n show ?thesis
      by (auto simp: map_of_put_attribute find_append_cases split: option.splits)
  qed
qed

lemma apply_attributes_listeners:
  "apply_attributes env attribs (as0, ls0) ks = Inr (as, ls) \<Longrightarrow>
   set ls = set ls0 \<union>
     set (map (\<lambda>key. (key, lookup env attribs key))
            (filter (\<lambda>key. is_function (lookup env attribs key)) ks))"
proof (induction ks arbitrary: as0 ls0)
  case Nil
  then show ?case by simp
next
  case (Cons k ks)
  show ?case
  proof (cases "is_function (lookup env attribs k)")
    case True
    with Cons.prems have
      "apply_attributes env attribs (as0, addEventListener ls0 k (lookup env attribs k)) ks =
       Inr (as, ls)" by simp
    from Cons.IH [OF this] True show ?thesis by (auto simp: addEventListener_def)
  next
    case False
    with Cons.prems obtain as1 where
      "apply_attributes env attribs (as1, ls0) ks = Inr (as, ls)"
      by (auto split: sum.splits)
    from Cons.IH [OF this] False show ?thesis by simp
  qed
qed

lemma is_function_not_nullish: "is_function v \<Longrightarrow> \<not> nullish v"
  by (cases v) simp_all

lemma createElement_built:
  assumes "createElement env tag a = Inr el"
  shows "\<exists>name as ls. el = Element name as ls [] \<and>
           element_name env (js_String tag) = Some name \<and>
           map_of as = written_attribute env a \<and>
           set ls = set (registered_listeners env a)"
proof -
  let ?attribs = "own_attributes a"
  let ?ks = "filter (\<lambda>key. \<not> nullish (lookup env ?attribs key)) (keys ?attribs)"
  from assms obtain name as ls where
    name: "element_name env (js_String tag) = Some name" and
    aa: "apply_attributes env ?attribs ([], []) ?ks = Inr (as, ls)" and
    el: "el = Element name as ls []"
    by (auto simp: createElement_def Let_def own_attributes_def split: option.splits sum.splits)
  have keys: "attribute_keys env a =
              filter (\<lambda>key. \<not> is_function (lookup env ?attribs key)) ?ks"
    by (simp add: attribute_keys_def conj_commute)
  have "\<And>n. map_of as n = written_attribute env a n"
    using apply_attributes_attributes [OF aa]
    by (simp add: written_attribute_def keys split: option.splits)
  then have attrs: "map_of as = written_attribute env a" by (simp add: fun_eq_iff)
  have "set ls = set (registered_listeners env a)"
    using apply_attributes_listeners [OF aa] is_function_not_nullish
    by (auto simp: registered_listeners_def)
  with name attrs el show ?thesis by blast
qed

text \<open>The loop over the children, and \<open>render\<close> on an element.\<close>

lemma render_children_result:
  "render_children env (Element t as ls ns) cs = Inr el \<Longrightarrow>
     \<exists>nodes. el = Element t as ls (ns @ nodes) \<and> list_all2 (\<lambda>c n. render env c = Inr n) cs nodes"
proof (induction cs arbitrary: ns el)
  case Nil
  then show ?case by simp
next
  case (Cons c cs)
  from Cons.prems obtain node where
    c: "render env c = Inr node" and
    rest: "render_children env (Element t as ls (ns @ [node])) cs = Inr el"
    by (auto split: sum.splits)
  from Cons.IH [OF rest] obtain nodes where
    "el = Element t as ls ((ns @ [node]) @ nodes)" and
    "list_all2 (\<lambda>c n. render env c = Inr n) cs nodes" by blast
  with c have "el = Element t as ls (ns @ (node # nodes)) \<and>
               list_all2 (\<lambda>c n. render env c = Inr n) (c # cs) (node # nodes)" by simp
  then show ?case by blast
qed

lemma render_children_complete:
  "list_all2 (\<lambda>c n. render env c = Inr n) cs nodes \<Longrightarrow>
   render_children env (Element t as ls ns) cs = Inr (Element t as ls (ns @ nodes))"
  by (induction cs nodes arbitrary: ns rule: list_all2_induct) simp_all

lemma render_element_result:
  assumes "render env (VObj ty tag a cs) = Inr node"
  shows "\<exists>name as ls nodes. node = Element name as ls nodes \<and>
           element_name env (js_String tag) = Some name \<and>
           map_of as = written_attribute env a \<and>
           set ls = set (registered_listeners env a) \<and>
           list_all2 (\<lambda>c n. render env c = Inr n) cs nodes"
proof -
  from assms obtain el where
    el: "createElement env tag a = Inr el" and rc: "render_children env el cs = Inr node"
    by (auto split: sum.splits)
  from createElement_built [OF el] obtain name as ls where
    shape: "el = Element name as ls []" and
    built: "element_name env (js_String tag) = Some name" "map_of as = written_attribute env a"
      "set ls = set (registered_listeners env a)"
    by blast
  from render_children_result [OF rc [unfolded shape]] obtain nodes where
    "node = Element name as ls ([] @ nodes)" and
    "list_all2 (\<lambda>c n. render env c = Inr n) cs nodes" by blast
  with built show ?thesis by auto
qed

lemma ex_list_all2: "(\<exists>ys. list_all2 P xs ys) \<longleftrightarrow> (\<forall>x \<in> set xs. \<exists>y. P x y)"
  by (induction xs) (auto simp: list_all2_Cons1)

lemma render_children_returns:
  "(\<exists>el. render_children env (Element t as ls ns) cs = Inr el) \<longleftrightarrow>
   (\<forall>c \<in> set cs. \<exists>n. render env c = Inr n)"
proof
  assume "\<exists>el. render_children env (Element t as ls ns) cs = Inr el"
  then obtain el where "render_children env (Element t as ls ns) cs = Inr el" ..
  from render_children_result [OF this]
  have "\<exists>nodes. list_all2 (\<lambda>c n. render env c = Inr n) cs nodes" by blast
  then show "\<forall>c \<in> set cs. \<exists>n. render env c = Inr n" by (simp only: ex_list_all2)
next
  assume "\<forall>c \<in> set cs. \<exists>n. render env c = Inr n"
  then have "\<exists>nodes. list_all2 (\<lambda>c n. render env c = Inr n) cs nodes"
    by (simp only: ex_list_all2)
  then obtain nodes where "list_all2 (\<lambda>c n. render env c = Inr n) cs nodes" ..
  from render_children_complete [OF this]
  show "\<exists>el. render_children env (Element t as ls ns) cs = Inr el" by blast
qed

lemma render_children_error:
  "(\<And>c e. c \<in> set cs \<Longrightarrow> render env c = Inl e \<Longrightarrow> e = InvalidCharacterError) \<Longrightarrow>
   render_children env (Element t as ls ns) cs = Inl e \<Longrightarrow> e = InvalidCharacterError"
  by (induction cs arbitrary: ns) (auto split: sum.splits)

lemma render_error: "render env d = Inl e \<Longrightarrow> e = InvalidCharacterError"
proof (induction d arbitrary: e)
  case (VObj ty tag a cs)
  show ?case
  proof (cases "createElement env tag a")
    case (Inl e')
    with VObj.prems createElement_error [OF Inl] show ?thesis by simp
  next
    case (Inr el)
    from createElement_built [OF Inr] obtain name as ls where
      "el = Element name as ls []" by blast
    with VObj.prems Inr have "render_children env (Element name as ls []) cs = Inl e" by simp
    then show ?thesis using VObj.IH by (rule render_children_error [rotated]) auto
  qed
qed simp_all

lemma render_returns: "(\<exists>node. render env d = Inr node) \<longleftrightarrow> names_accepted env d"
proof (induction d)
  case (VObj ty tag a cs)
  have children: "(\<forall>c \<in> set cs. \<exists>n. render env c = Inr n) \<longleftrightarrow> list_all (names_accepted env) cs"
    using VObj.IH by (simp add: list_all_iff)
  show ?case
  proof (cases "createElement env tag a")
    case (Inl e)
    then have "\<not> (\<exists>el. createElement env tag a = Inr el)" by simp
    then have "\<not> (element_name env (js_String tag) \<noteq> None \<and>
                  list_all (\<lambda>key. attribute_name env key \<noteq> None) (attribute_keys env a))"
      using createElement_returns [of env tag a] by blast
    with Inl show ?thesis by auto
  next
    case (Inr el)
    from createElement_built [OF Inr] obtain name as ls where
      el: "el = Element name as ls []" by blast
    from Inr have "element_name env (js_String tag) \<noteq> None \<and>
                   list_all (\<lambda>key. attribute_name env key \<noteq> None) (attribute_keys env a)"
      using createElement_returns [of env tag a] by blast
    moreover have "(\<exists>node. render env (VObj ty tag a cs) = Inr node) \<longleftrightarrow>
                   (\<forall>c \<in> set cs. \<exists>n. render env c = Inr n)"
      using Inr el render_children_returns [of env name as ls "[]" cs] by simp
    ultimately show ?thesis using children by simp
  qed
qed simp_all

text \<open>
  C6: \<open>render\<close> returns an empty text node for \<open>null\<close> and \<open>undefined\<close> and a text node
  carrying the value for a string or number leaf, and never raises on these. On an element
  description it returns exactly when the document accepts every tag name and every
  attribute name in the description, and raises an \<open>InvalidCharacterError\<close> otherwise. The
  node it returns for an element is a fresh element under the name the document stores for
  the tag, with the attributes written from the attribute map, a listener for each
  function in it, and the rendered children, in order, as its child nodes.
\<close>

theorem render_total_on_accepted_names:
  "render env VNull = Inr (TextNode []) \<and>
   render env VUndefined = Inr (TextNode []) \<and>
   render env (VStr s) = Inr (TextNode s) \<and>
   render env (VNum n) = Inr (TextNode (number_toString n)) \<and>
   (names_accepted env d \<longrightarrow> (\<exists>node. render env d = Inr node)) \<and>
   (\<not> names_accepted env d \<longrightarrow> render env d = Inl InvalidCharacterError) \<and>
   (render env (VObj ty tag a cs) = Inr el \<longrightarrow>
      (\<exists>name as ls nodes.
         el = Element name as ls nodes \<and>
         element_name env (js_String tag) = Some name \<and>
         map_of as = written_attribute env a \<and>
         set ls = set (registered_listeners env a) \<and>
         list_all2 (\<lambda>c node. render env c = Inr node) cs nodes))"
proof -
  have "\<not> names_accepted env d \<longrightarrow> render env d = Inl InvalidCharacterError"
  proof
    assume "\<not> names_accepted env d"
    then have "\<not> (\<exists>node. render env d = Inr node)" by (simp add: render_returns)
    then obtain e where "render env d = Inl e" by (cases "render env d") auto
    with render_error show "render env d = Inl InvalidCharacterError" by blast
  qed
  moreover have "names_accepted env d \<longrightarrow> (\<exists>node. render env d = Inr node)"
    by (simp add: render_returns)
  ultimately show ?thesis
    using render_element_result [of env ty tag a cs el] by (simp add: createTextNode_def)
qed

theorem render_total_on_accepted_names_witness:
  "names_accepted sample_env titled \<and>
   render sample_env titled =
     Inr (Element ''div'' [(''title'', ''t'')] [(''click'', Fun 1 ''evt => edit(row)'')]
            [TextNode ''a'']) \<and>
   written_attribute sample_env
       (Some [(''Title'', Str ''t''), (''click'', Fun 1 ''evt => edit(row)'')]) =
     map_of [(''title'', ''t'')] \<and>
   set (registered_listeners sample_env
       (Some [(''Title'', Str ''t''), (''click'', Fun 1 ''evt => edit(row)'')])) =
     {(''click'', Fun 1 ''evt => edit(row)'')} \<and>
   \<not> names_accepted sample_env (h (Str ''a b'') (Some []) []) \<and>
   render sample_env (h (Str ''a b'') (Some []) []) = Inl InvalidCharacterError"
proof -
  let ?a = "Some [(''Title'', Str ''t''), (''click'', Fun 1 ''evt => edit(row)'')]"
  let ?el = "Element ''div'' [(''title'', ''t'')] [(''click'', Fun 1 ''evt => edit(row)'')]
               [TextNode ''a'']"
  have t: "titled = VObj Undefined (Str ''DIV'') ?a [VStr ''a'']" by code_simp
  have a: "names_accepted sample_env titled" by code_simp
  have r: "render sample_env titled = Inr ?el" by code_simp
  have n: "\<not> names_accepted sample_env (h (Str ''a b'') (Some []) [])" by code_simp
  from r have r': "render sample_env (VObj Undefined (Str ''DIV'') ?a [VStr ''a'']) = Inr ?el"
    by (simp only: t)
  show ?thesis
    using a r n r'
      render_total_on_accepted_names
        [of sample_env s0 n0 titled Undefined "Str ''DIV''" ?a "[VStr ''a'']" ?el]
      render_total_on_accepted_names [of sample_env s0 n0 "h (Str ''a b'') (Some []) []"]
    by auto
qed

theorem render_raises_on_refused_name:
  "render sample_env (h (Str []) (Some []) []) = Inl InvalidCharacterError \<and>
   render sample_env (h (Str ''p'') (Some [(''a b'', Str ''1'')]) []) = Inl InvalidCharacterError \<and>
   render sample_env (h (Str ''ul'') (Some []) [Node (h (Str []) (Some []) [])]) =
     Inl InvalidCharacterError"
  by code_simp

section \<open>Reconciliation\<close>

declare diff.simps [simp del]

lemma put_child_same: "child_at p index = Some c \<Longrightarrow> put_child p index (Some c) = p"
  by (cases p) (auto split: if_splits)

text \<open>The loop over the children of a description against itself, from position \<open>i\<close> on.\<close>

lemma diff_children_in_sync:
  assumes step: "\<And>c p i n. c \<in> set cs \<Longrightarrow> render env c = Inr n \<Longrightarrow> child_at p i = Some n \<Longrightarrow>
                   diff env (Some p) c c i = Inr (Some p, [])"
    and live: "child_at p index = Some (Element t a l nodes)"
    and sync: "list_all2 (\<lambda>c n. render env c = Inr n) cs nodes"
  shows "i \<le> length cs \<Longrightarrow>
         diff_children env (Some p) index (Some cs) (drop i cs) i = Inr (Some p, [])"
proof (induction "length cs - i" arbitrary: i)
  case 0
  then show ?case by simp
next
  case (Suc k)
  then have less: "i < length cs" by simp
  then have unfold: "drop i cs = cs ! i # drop (Suc i) cs"
    by (simp add: Cons_nth_drop_Suc)
  from sync less have len: "i < length nodes" and r: "render env (cs ! i) = Inr (nodes ! i)"
    by (simp_all add: list_all2_conv_all_nth)
  have child: "child_at (Element t a l nodes) i = Some (nodes ! i)"
    using len by simp
  have one: "diff env (Some (Element t a l nodes)) (cs ! i) (cs ! i) i =
             Inr (Some (Element t a l nodes), [])"
    using step [OF _ r child] less by simp
  have rest: "diff_children env (Some p) index (Some cs) (drop (Suc i) cs) (Suc i) =
              Inr (Some p, [])"
    using Suc.hyps(1) [of "Suc i"] Suc.hyps(2) less by simp
  show ?case
    using less one rest by (simp add: unfold live element_at_def put_child_same [OF live])
qed

lemma diff_same_in_sync:
  "is_description d \<Longrightarrow> render env d = Inr node \<Longrightarrow> child_at p index = Some node \<Longrightarrow>
   diff env (Some p) d d index = Inr (Some p, [])"
proof (induction d arbitrary: p index node)
  case (VObj ty tag a cs)
  from render_element_result [OF VObj.prems(2)] obtain name as ls nodes where
    node: "node = Element name as ls nodes" and
    sync: "list_all2 (\<lambda>c n. render env c = Inr n) cs nodes" by blast
  have live: "child_at p index = Some (Element name as ls nodes)"
    using VObj.prems(3) by (simp add: node)
  have step: "\<And>c q i n. c \<in> set cs \<Longrightarrow> render env c = Inr n \<Longrightarrow> child_at q i = Some n \<Longrightarrow>
                diff env (Some q) c c i = Inr (Some q, [])"
    using VObj.IH VObj.prems(1) by (simp add: list_all_iff)
  have "diff_children env (Some p) index (Some cs) (drop 0 cs) 0 = Inr (Some p, [])"
    by (rule diff_children_in_sync [OF step live sync]) simp_all
  then show ?case
    using changed_same [OF VObj.prems(1), of env]
    by (simp add: diff.simps [of env "Some p" "VObj ty tag a cs"])
next
  case (VNum n)
  then show ?case
    using changed_same [of "VNum n" env] by (simp add: diff.simps)
next
  case (VStr s)
  then show ?case
    using changed_same [of "VStr s" env] by (simp add: diff.simps)
qed simp_all

text \<open>
  C3: for a description \<open>d\<close> made of string leaves, number leaves other than \<open>NaN\<close> and
  elements whose children are such descriptions (none of them \<open>null\<close> or \<open>undefined\<close>), and
  a live root whose child at \<open>index\<close> is the node rendered from \<open>d\<close>, \<open>diff\<close> of \<open>d\<close>
  against itself returns the root as it was and issues no mutation: nothing is appended,
  removed or replaced at any depth. \<open>render\<close>, the only place where attributes are set, is
  called by \<open>diff\<close> only for a node it appends or puts in place of another.
\<close>

theorem diff_same_description_no_mutation:
  assumes "is_description d" and "child_at root0 index = Some node" and "render env d = Inr node"
  shows "diff env (Some root0) d d index = Inr (Some root0, [])"
  using assms diff_same_in_sync [of d env node root0 index] by simp

theorem diff_same_description_no_mutation_witness:
  "is_description item_seven \<and>
   child_at live_item_seven 0 =
     Some (Element ''li'' [(''id'', ''7'')] [(''click'', Fun 1 ''evt => edit(row)'')]
             [TextNode ''a'', TextNode ''3'']) \<and>
   render sample_env item_seven =
     Inr (Element ''li'' [(''id'', ''7'')] [(''click'', Fun 1 ''evt => edit(row)'')]
            [TextNode ''a'', TextNode ''3'']) \<and>
   diff sample_env (Some live_item_seven) item_seven item_seven 0 = Inr (Some live_item_seven, [])"
proof -
  let ?node = "Element ''li'' [(''id'', ''7'')] [(''click'', Fun 1 ''evt => edit(row)'')]
                 [TextNode ''a'', TextNode ''3'']"
  have d: "is_description item_seven" by code_simp
  have c: "child_at live_item_seven 0 = Some ?node" by code_simp
  have r: "render sample_env item_seven = Inr ?node" by code_simp
  show ?thesis
    using d c r diff_same_description_no_mutation [OF d c r] by simp
qed

text \<open>
  Outside these descriptions \<open>diff\<close> of a description against itself does mutate the live
  tree: the leaf \<open>NaN\<close> is replaced, since \<open>NaN\<close> is not identical to itself, and for the
  \<open>null\<close> child of \<open>h('ul', {}, null)\<close> another empty text node is appended.
\<close>

theorem diff_same_description_mutates:
  "render sample_env (VNum NaN) = Inr (TextNode ''NaN'') \<and>
   diff sample_env (Some (Element ''div'' [] [] [TextNode ''NaN''])) (VNum NaN) (VNum NaN) 0 =
     Inr (Some (Element ''div'' [] [] [TextNode ''NaN'']), [ReplaceChild 0 (TextNode ''NaN'')]) \<and>
   render sample_env list_with_null = Inr (Element ''ul'' [] [] [TextNode []]) \<and>
   child_at live_list_with_null 0 = Some (Element ''ul'' [] [] [TextNode []]) \<and>
   diff sample_env (Some live_list_with_null) list_with_null list_with_null 0 =
     Inr (Some (Element ''div'' [] [] [Element ''ul'' [] [] [TextNode [], TextNode []]]),
          [AppendChild (TextNode [])])"
  by code_simp

text \<open>The loop never reads an old child at a position past the new children.\<close>

lemma element_at_append: "i < length os \<Longrightarrow> element_at (os @ extra) i = element_at os i"
  by (simp add: element_at_def nth_append)

lemma diff_children_old_excess:
  "i + length news \<le> length os \<Longrightarrow>
   diff_children env parent index (Some (os @ extra)) news i =
   diff_children env parent index (Some os) news i"
proof (induction news arbitrary: parent i)
  case Nil
  then show ?case by simp
next
  case (Cons n news)
  then have "i < length os" and "Suc i + length news \<le> length os" by simp_all
  then show ?case
    using Cons.IH [of "Suc i"]
    by (simp add: element_at_append split: option.splits sum.splits prod.splits)
qed

text \<open>
  C1: the loop of \<open>diff\<close> runs over the new children only. With the old list of two items,
  the new list of one item and the live tree rendered from the old list, \<open>changed\<close> is
  false, and \<open>diff\<close> returns the live tree with both items still there and no mutation
  issued: the excess old child is not removed. In the other direction the excess new child
  is appended.
\<close>

theorem diff_keeps_excess_old_children:
  "render sample_env two_items =
     Inr (Element ''ul'' [] []
            [Element ''li'' [] [] [TextNode ''a''], Element ''li'' [] [] [TextNode ''b'']]) \<and>
   child_at live_two_items 0 =
     Some (Element ''ul'' [] []
             [Element ''li'' [] [] [TextNode ''a''], Element ''li'' [] [] [TextNode ''b'']]) \<and>
   changed sample_env two_items one_item = Inr False \<and>
   diff sample_env (Some live_two_items) two_items one_item 0 = Inr (Some live_two_items, []) \<and>
   diff sample_env (Some (Element ''div'' [] [] [Element ''ul'' [] [] [Element ''li'' [] [] [TextNode ''a'']]]))
     one_item two_items 0 =
     Inr (Some live_two_items, [AppendChild (Element ''li'' [] [] [TextNode ''b''])])"
  by code_simp

text \<open>
  C8: for two descriptions built by \<open>vNode\<close> whose attribute maps the detector finds
  equal, \<open>changed\<close> is false whatever the two tag names are (it compares the \<open>type\<close>
  property, which \<open>vNode\<close> does not write), so \<open>diff\<close> replaces nothing at this node: it
  goes on to the children, or returns when the new tag name is falsy.
\<close>

theorem changed_ignores_tagName:
  assumes "\<not> attributes_differ env (case A1 of None \<Rightarrow> [] | Some a \<Rightarrow> a)
                                     (case A2 of None \<Rightarrow> [] | Some a \<Rightarrow> a)"
  shows "changed env (vNode tag1 A1 n1) (vNode tag2 A2 n2) = Inr False \<and>
         diff env parent (vNode tag1 A1 n1) (vNode tag2 A2 n2) index =
           (if truthy tag2
            then diff_children env parent index (Some (flatten_one_level n1))
                   (flatten_one_level n2) 0
            else Inr (parent, []))"
  using assms
  by (simp add: changed_vNode diff.simps [of env parent "vNode tag1 A1 n1"])
     (simp add: vNode_def concat_spread_append)

theorem changed_ignores_tagName_witness:
  "\<not> attributes_differ sample_env
       [(''id'', Num (Numeric ''7'')), (''click'', Fun 1 ''evt => edit(row)'')]
       [(''id'', Str ''7''), (''click'', Fun 2 ''evt => edit(row)'')] \<and>
   tagName item_seven \<noteq> tagName cell_seven \<and>
   changed sample_env item_seven cell_seven = Inr False \<and>
   diff sample_env (Some live_item_seven) item_seven cell_seven 0 = Inr (Some live_item_seven, [])"
proof -
  let ?a1 = "[(''id'', Num (Numeric ''7'')), (''click'', Fun 1 ''evt => edit(row)'')]"
  let ?a2 = "[(''id'', Str ''7''), (''click'', Fun 2 ''evt => edit(row)'')]"
  let ?ns = "[Node (VStr ''a''), Node (VNum (Numeric ''3''))]"
  have a: "\<not> attributes_differ sample_env (case Some ?a1 of None \<Rightarrow> [] | Some a \<Rightarrow> a)
                                        (case Some ?a2 of None \<Rightarrow> [] | Some a \<Rightarrow> a)"
    by code_simp
  have t: "tagName item_seven \<noteq> tagName cell_seven" by code_simp
  have d: "diff sample_env (Some live_item_seven) item_seven cell_seven 0 =
           Inr (Some live_item_seven, [])"
    by code_simp
  show ?thesis
    using a t d changed_ignores_tagName [OF a, of "Str ''li''" ?ns "Str ''td''" ?ns]
    by (simp add: item_seven_def cell_seven_def h_def)
qed

section \<open>The render loop\<close>

text \<open>\<open>diff\<close> returns a parent exactly when it was given one.\<close>

lemma diff_keeps_parent:
  "diff env parent oldNode newNode index = Inr (r, ms) \<Longrightarrow> (r = None) = (parent = None)"
  "diff_children env parent index olds news i = Inr (r, ms) \<Longrightarrow> (r = None) = (parent = None)"
proof (induction env parent oldNode newNode index and env parent index olds news i
    arbitrary: r ms and r ms rule: diff_diff_children.induct)
  case (1 env parent oldNode newNode index)
  then show ?case
    by (auto simp: diff.simps [of env parent oldNode newNode index]
        split: if_splits option.splits sum.splits bool.splits vnode.splits)
next
  case (2 env parent index olds i)
  then show ?case by simp
next
  case (3 env parent index olds newNode rest i)
  then show ?case
    by (auto split: option.splits sum.splits prod.splits)
qed

text \<open>After \<open>mount\<close> the first child of the root is the rendering of the retained description.\<close>

lemma replaceChild_child_at:
  "replaceChild p node i = Inr p' \<Longrightarrow> child_at p' i = Some node"
  by (cases p) (auto split: if_splits)

lemma mount_in_sync:
  assumes "mount env root0 v s b = Inr m"
  shows "state m = s \<and> vDom m = v s \<and> view m = v \<and> useDiffing m = b \<and>
         (\<exists>node. render env (vDom m) = Inr node \<and> child_at (root m) 0 = Some node)"
proof -
  from assms obtain node where n: "render env (v s) = Inr node"
    by (auto simp: mount_def Let_def split: sum.splits)
  show ?thesis
  proof (cases "child_at root0 0")
    case None
    with assms n obtain r where
      r: "appendChild root0 node = Inr r" and
      m: "m = \<lparr>view = v, useDiffing = b, state = s, vDom = v s, root = r\<rparr>"
      by (auto simp: mount_def Let_def split: sum.splits)
    from r None have "child_at r 0 = Some node"
      by (cases root0) (auto split: if_splits)
    then show ?thesis using n by (simp add: m)
  next
    case (Some first)
    with assms n obtain r where
      r: "replaceChild root0 node 0 = Inr r" and
      m: "m = \<lparr>view = v, useDiffing = b, state = s, vDom = v s, root = r\<rparr>"
      by (auto simp: mount_def Let_def split: sum.splits)
    from replaceChild_child_at [OF r] show ?thesis using n by (simp add: m)
  qed
qed

lemma mount_count_view:
  "mount env (Element ''div'' [] [] []) count_view
     [''count'' \<mapsto> Numeric ''0'', ''step'' \<mapsto> Numeric ''5''] b =
     Inr \<lparr>view = count_view, useDiffing = b,
          state = [''count'' \<mapsto> Numeric ''0'', ''step'' \<mapsto> Numeric ''5''],
          vDom = VNum (Numeric ''0''), root = Element ''div'' [] [] [TextNode ''0'']\<rparr>"
  by (simp add: mount_def Let_def count_view_def createTextNode_def)

text \<open>
  C5: when \<open>setState\<close> returns, the state is the shallow merge of the partial record into
  the previous state (a key of the partial record has its value there, any other key keeps
  its previous value), the retained description is the one the view gives for the merged
  state, on either path, and the root is the previous root patched by \<open>diff\<close> from the old
  to the new description (with diffing) or with its first child replaced by the rendering
  of the new description (without).
\<close>

theorem setState_merges_and_redraws:
  assumes "setState env m p = Inr m'"
  shows "state m' = state m ++ p \<and>
         (\<forall>k v. p k = Some v \<longrightarrow> state m' k = Some v) \<and>
         (\<forall>k. p k = None \<longrightarrow> state m' k = state m k) \<and>
         vDom m' = view m (state m') \<and>
         (if useDiffing m
          then \<exists>ms. diff env (Some (root m)) (vDom m) (vDom m') 0 = Inr (Some (root m'), ms)
          else \<exists>node. render env (vDom m') = Inr node \<and>
                 replaceChild (root m) node 0 = Inr (root m')) \<and>
         view m' = view m \<and> useDiffing m' = useDiffing m"
proof (cases "useDiffing m")
  case True
  with assms obtain r ms where
    d: "diff env (Some (root m)) (vDom m) (view m (state m ++ p)) 0 = Inr (r, ms)" and
    m': "m' = m\<lparr>state := state m ++ p, vDom := view m (state m ++ p),
                 root := (case r of Some r' \<Rightarrow> r' | None \<Rightarrow> root m)\<rparr>"
    by (auto simp: setState_def Let_def split: sum.splits)
  from diff_keeps_parent(1) [OF d] obtain r' where r: "r = Some r'" by auto
  show ?thesis using True d by (simp add: m' r map_add_def)
next
  case False
  with assms obtain node r where
    n: "render env (view m (state m ++ p)) = Inr node" and
    rc: "replaceChild (root m) node 0 = Inr r" and
    m': "m' = m\<lparr>state := state m ++ p, vDom := view m (state m ++ p), root := r\<rparr>"
    by (auto simp: setState_def Let_def split: sum.splits)
  show ?thesis using False n rc by (simp add: m' map_add_def)
qed

theorem setState_merges_and_redraws_witness:
  "(\<exists>m'. setState sample_env
            \<lparr>view = count_view, useDiffing = True,
             state = [''count'' \<mapsto> Numeric ''0'', ''step'' \<mapsto> Numeric ''5''],
             vDom = VNum (Numeric ''0''), root = Element ''div'' [] [] [TextNode ''0'']\<rparr>
            [''count'' \<mapsto> Numeric ''1''] = Inr m' \<and>
         state m' ''count'' = Some (Numeric ''1'') \<and> state m' ''step'' = Some (Numeric ''5'') \<and>
         vDom m' = VNum (Numeric ''1'') \<and> root m' = Element ''div'' [] [] [TextNode ''1'']) \<and>
   (\<exists>m'. setState sample_env
            \<lparr>view = count_view, useDiffing = False,
             state = [''count'' \<mapsto> Numeric ''0'', ''step'' \<mapsto> Numeric ''5''],
             vDom = VNum (Numeric ''0''), root = Element ''div'' [] [] [TextNode ''0'']\<rparr>
            [''count'' \<mapsto> Numeric ''1''] = Inr m' \<and>
         state m' ''count'' = Some (Numeric ''1'') \<and> state m' ''step'' = Some (Numeric ''5'') \<and>
         vDom m' = VNum (Numeric ''1'') \<and> root m' = Element ''div'' [] [] [TextNode ''1''])"
proof -
  let ?st = "[''count'' \<mapsto> Numeric ''0'', ''step'' \<mapsto> Numeric ''5'']"
  let ?m = "\<lambda>b. \<lparr>view = count_view, useDiffing = b, state = ?st, vDom = VNum (Numeric ''0''),
                  root = Element ''div'' [] [] [TextNode ''0'']\<rparr>"
  let ?m' = "\<lambda>b. \<lparr>view = count_view, useDiffing = b,
                   state = [''step'' \<mapsto> Numeric ''5'', ''count'' \<mapsto> Numeric ''1''],
                   vDom = VNum (Numeric ''1''), root = Element ''div'' [] [] [TextNode ''1'']\<rparr>"
  have v: "count_view [''step'' \<mapsto> Numeric ''5'', ''count'' \<mapsto> Numeric ''1''] = VNum (Numeric ''1'')"
    by (simp add: count_view_def)
  have d: "diff sample_env (Some (Element ''div'' [] [] [TextNode ''0'']))
             (VNum (Numeric ''0'')) (VNum (Numeric ''1'')) 0 =
           Inr (Some (Element ''div'' [] [] [TextNode ''1'']), [ReplaceChild 0 (TextNode ''1'')])"
    by code_simp
  have on: "setState sample_env (?m True) [''count'' \<mapsto> Numeric ''1''] = Inr (?m' True)"
    by (simp add: setState_def Let_def v d)
  have off: "setState sample_env (?m False) [''count'' \<mapsto> Numeric ''1''] = Inr (?m' False)"
    by (simp add: setState_def Let_def v createTextNode_def)
  show ?thesis
    using setState_merges_and_redraws [OF on] setState_merges_and_redraws [OF off] on off
    by simp
qed

section \<open>Observable values and lists\<close>

lemma indexOf_absent: "x \<notin> set xs \<Longrightarrow> indexOf xs x = - 1"
  by (induction xs) (auto simp: Let_def)

text \<open>
  C9: \<open>setValue\<close> with the current value changes nothing and calls no listener; with any
  other value it calls every registered listener, in order, with the new and the old value,
  and the new value is the one read afterwards.
\<close>

theorem setValue_same_value:
  "(v = obs_value obs \<longrightarrow>
      setValue v obs = (obs, []) \<and> getValue (fst (setValue v obs)) = getValue obs) \<and>
   (v \<noteq> obs_value obs \<longrightarrow>
      snd (setValue v obs) = map (\<lambda>notify. (notify, v, obs_value obs)) (listeners obs) \<and>
      getValue (fst (setValue v obs)) = v)"
  by (simp add: setValue_def getValue_def)

theorem setValue_same_value_witness:
  "setValue (1::int) (onChange ''f'' (Observable 1)) = (onChange ''f'' (Observable 1), []) \<and>
   snd (setValue (2::int) (onChange ''g'' (onChange ''f'' (Observable 1)))) =
     [(''f'', 2, 1), (''g'', 2, 1)]"
  using setValue_same_value [of "1::int" "onChange ''f'' (Observable 1)"]
        setValue_same_value [of "2::int" "onChange ''g'' (onChange ''f'' (Observable 1))"]
  by (simp add: onChange_def Observable_def)

text \<open>
  C10: \<open>del\<close> of an item that is not in the list leaves the list and its count as they
  are; the deletion listeners are called with the item all the same, as they are after every
  \<open>del\<close>.
\<close>

theorem del_absent_item:
  "(x \<notin> set (items ol) \<longrightarrow>
      items (fst (del x ol)) = items ol \<and> count (fst (del x ol)) = count ol) \<and>
   snd (del x ol) = map (\<lambda>listener. (listener, x)) (delListeners ol)"
  by (simp add: del_def Let_def count_def indexOf_absent)

theorem del_absent_item_witness:
  "(3::int) \<notin> set (items (onDel ''f'' (ObservableList [1, 2]))) \<and>
   items (fst (del 3 (onDel ''f'' (ObservableList [1::int, 2])))) = [1, 2] \<and>
   count (fst (del 3 (onDel ''f'' (ObservableList [1::int, 2])))) = 2 \<and>
   snd (del 3 (onDel ''f'' (ObservableList [1::int, 2]))) = [(''f'', 3)]"
  using del_absent_item [of "3::int" "onDel ''f'' (ObservableList [1, 2])"]
  by (simp add: onDel_def ObservableList_def count_def)

end
